theory Spec2Isabelle
  imports Main
begin

section \<open>Data model\<close>

text \<open>
  The module \<^verbatim>\<open>openshift_adm_migrate_template_instances.py\<close> works on the dictionaries
  that the dynamic client returns. Every key the code subscripts (\<^verbatim>\<open>d['k']\<close>, which
  raises \<^verbatim>\<open>KeyError\<close> when the key is missing) or reads with \<^verbatim>\<open>d.get('k')\<close> (which
  gives \<^verbatim>\<open>None\<close>) is an optional field here, so that each raise of the source is a
  branch of the model. Keys the code never looks at are plain fields that stand for
  the rest of the dictionary.
\<close>

record object_reference =
  kind :: "string option"
  apiVersion :: "string option"
  name :: string
  namespace :: string
  uid :: string

record template_object =
  ref :: "object_reference option"

record instance_status =
  objects :: "template_object list option"
  conditions :: string

record template_instance =
  metadata_name :: string
  metadata_namespace :: string
  resourceVersion :: string
  spec :: string
  status :: "instance_status option"

record template_instance_list =
  items :: "template_instance list option"

text \<open>
  Exceptions of the client. A \<^verbatim>\<open>DynamicApiError\<close> has the attributes \<^verbatim>\<open>status\<close>, \<^verbatim>\<open>reason\<close> and
  \<^verbatim>\<open>body\<close>; the last argument of either constructor is the exception's own text, which is
  what \<^verbatim>\<open>to_native(exc)\<close> gives.
\<close>

datatype exception =
    DynamicApiError int string string string
  | OtherException string

fun to_native :: "exception \<Rightarrow> string" where
  "to_native (DynamicApiError st reason body txt) = txt"
| "to_native (OtherException txt) = txt"

datatype pyval = PyInt int | PyStr string

text \<open>
  The ways a run ends without a result: a Python exception nobody catches
  (\<open>KeyError\<close>, \<open>TypeError\<close>, \<open>Uncaught\<close>) and \<^verbatim>\<open>fail_json(msg=..., **kwargs)\<close>.
\<close>

datatype error =
    KeyError string
  | TypeError string
  | Uncaught exception
  | FailJson string "(string \<times> pyval) list"

text \<open>
  The \<^verbatim>\<open>result\<close> entry of the returned dictionary: it starts as the empty list and is
  overwritten with the dictionary a patch returns.
\<close>

datatype 'b result_value = EmptyList | Body 'b

record 'b results =
  changed :: bool
  result :: "'b result_value"

text \<open>
  The world outside the module: the cluster (of any type \<open>'c\<close>), and the bodies sent
  with \<^verbatim>\<open>resource.status.patch\<close> so far, in the order of the calls.
\<close>

record 'c world =
  cluster :: 'c
  patch_calls :: "template_instance list"

text \<open>
  The resource handle that \<^verbatim>\<open>find_resource\<close> returns: \<^verbatim>\<open>resource.get(namespace=...)\<close> reads
  the cluster, \<^verbatim>\<open>resource.status.patch(body)\<close> changes it and answers with the body the
  server stored. Both may raise.
\<close>

record ('c, 'b) resource =
  resource_get :: "string option \<Rightarrow> 'c \<Rightarrow> exception + template_instance_list"
  status_patch :: "template_instance \<Rightarrow> 'c \<Rightarrow> exception + ('b \<times> 'c)"

section \<open>The module\<close>

definition transforms :: "string \<rightharpoonup> string" where
  "transforms = map_of
     [(''Build'', ''build.openshift.io/v1.Build''),
      (''BuildConfig'', ''build.openshift.io/v1.BuildConfig''),
      (''DeploymentConfig'', ''apps.openshift.io/v1.DeploymentConfig''),
      (''Route'', ''route.openshift.io/v1.Route'')]"

definition patch_template_instance ::
  "('c, 'b) resource \<Rightarrow> template_instance \<Rightarrow> 'c world \<Rightarrow> error + ('b \<times> 'c world)" where
  "patch_template_instance resource templateinstance w =
     (case status_patch resource templateinstance (cluster w) of
        Inl exc \<Rightarrow>
          Inl (FailJson (''Failed to migrate TemplateInstance '' @ metadata_name templateinstance
                         @ '' due to: '' @ to_native exc) [])
      | Inr (res, c') \<Rightarrow>
          Inr (res, \<lparr>cluster = c', patch_calls = patch_calls w @ [templateinstance]\<rparr>))"

text \<open>
  \<^verbatim>\<open>ti['status']['objects']\<close> is the very list the inner loop walks, so the instance
  body at any moment is the listed instance with the current list in place.
\<close>

definition with_objects ::
  "template_instance \<Rightarrow> instance_status \<Rightarrow> template_object list \<Rightarrow> template_instance" where
  "with_objects ti st objs = ti\<lparr>status := Some (st\<lparr>objects := Some objs\<rparr>)\<rparr>"

text \<open>The body of the inner loop of \<^verbatim>\<open>perform_migrations\<close>, at index \<open>i\<close>.\<close>

definition migrate_object ::
  "bool \<Rightarrow> ('c, 'b) resource \<Rightarrow> template_instance \<Rightarrow> instance_status \<Rightarrow> nat \<Rightarrow>
   template_object list \<times> 'b results \<times> 'c world \<Rightarrow>
   error + (template_object list \<times> 'b results \<times> 'c world)" where
  "migrate_object check_mode resource ti st i s =
     (case s of (objs, res, w) \<Rightarrow>
        (case ref (objs ! i) of
           None \<Rightarrow> Inl (KeyError ''ref'')
         | Some r \<Rightarrow>
             (case kind r of
                None \<Rightarrow> Inl (KeyError ''kind'')
              | Some object_type \<Rightarrow>
                  (case transforms object_type of
                     None \<Rightarrow> Inr s
                   | Some v \<Rightarrow>
                       (case apiVersion r of
                          None \<Rightarrow> Inl (KeyError ''apiVersion'')
                        | Some a \<Rightarrow>
                            if a \<noteq> v then
                              (let objs' = objs[i := (objs ! i)\<lparr>ref := Some (r\<lparr>apiVersion := Some v\<rparr>)\<rparr>]
                               in if \<not> check_mode then
                                    (case patch_template_instance resource (with_objects ti st objs') w of
                                       Inl e \<Rightarrow> Inl e
                                     | Inr (body, w') \<Rightarrow>
                                         Inr (objs', res\<lparr>result := Body body, changed := True\<rparr>, w'))
                                  else Inr (objs', res\<lparr>changed := True\<rparr>, w))
                            else Inr s)))))"

text \<open>The inner loop, \<^verbatim>\<open>for i, obj in enumerate(objects)\<close>, over the indices still to visit.\<close>

fun for_objects ::
  "bool \<Rightarrow> ('c, 'b) resource \<Rightarrow> template_instance \<Rightarrow> instance_status \<Rightarrow> nat list \<Rightarrow>
   template_object list \<times> 'b results \<times> 'c world \<Rightarrow>
   error + (template_object list \<times> 'b results \<times> 'c world)" where
  "for_objects check_mode resource ti st [] s = Inr s"
| "for_objects check_mode resource ti st (i # is) s =
     (case migrate_object check_mode resource ti st i s of
        Inl e \<Rightarrow> Inl e
      | Inr s' \<Rightarrow> for_objects check_mode resource ti st is s')"

text \<open>
  The body of the outer loop: \<^verbatim>\<open>objects = ti['status'].get('objects')\<close>, then the inner
  loop when \<^verbatim>\<open>objects\<close> is neither \<^verbatim>\<open>None\<close> nor empty. It returns the instance as it is
  in memory afterwards.
\<close>

definition migrate_instance ::
  "bool \<Rightarrow> ('c, 'b) resource \<Rightarrow> template_instance \<Rightarrow> 'b results \<times> 'c world \<Rightarrow>
   error + (template_instance \<times> 'b results \<times> 'c world)" where
  "migrate_instance check_mode resource ti s =
     (case s of (res, w) \<Rightarrow>
        (case status ti of
           None \<Rightarrow> Inl (KeyError ''status'')
         | Some st \<Rightarrow>
             (case objects st of
                None \<Rightarrow> Inr (ti, res, w)
              | Some objs \<Rightarrow>
                  if objs = [] then Inr (ti, res, w)
                  else
                    (case for_objects check_mode resource ti st [0..<length objs] (objs, res, w) of
                       Inl e \<Rightarrow> Inl e
                     | Inr (objs', res', w') \<Rightarrow> Inr (with_objects ti st objs', res', w')))))"

text \<open>The outer loop, \<^verbatim>\<open>for ti in templateinstances.get('items')\<close>.\<close>

fun for_templateinstances ::
  "bool \<Rightarrow> ('c, 'b) resource \<Rightarrow> template_instance list \<Rightarrow> 'b results \<times> 'c world \<Rightarrow>
   error + (template_instance list \<times> 'b results \<times> 'c world)" where
  "for_templateinstances check_mode resource [] s = Inr ([], s)"
| "for_templateinstances check_mode resource (ti # tis) s =
     (case migrate_instance check_mode resource ti s of
        Inl e \<Rightarrow> Inl e
      | Inr (ti', s') \<Rightarrow>
          (case for_templateinstances check_mode resource tis s' of
             Inl e \<Rightarrow> Inl e
           | Inr (tis', s'') \<Rightarrow> Inr (ti' # tis', s'')))"

text \<open>
  \<^verbatim>\<open>perform_migrations\<close> returns the \<^verbatim>\<open>results\<close> dictionary; the model returns with it
  the instances as they are in memory afterwards and the world.
\<close>

definition perform_migrations ::
  "bool \<Rightarrow> ('c, 'b) resource \<Rightarrow> template_instance_list \<Rightarrow> 'c world \<Rightarrow>
   error + (template_instance list \<times> 'b results \<times> 'c world)" where
  "perform_migrations check_mode resource templateinstances w =
     (case items templateinstances of
        None \<Rightarrow> Inl (TypeError ''NoneType object is not iterable'')
      | Some tis \<Rightarrow>
          for_templateinstances check_mode resource tis (\<lparr>changed = False, result = EmptyList\<rparr>, w))"

text \<open>
  \<^verbatim>\<open>execute_module\<close>. \<^verbatim>\<open>find_resource\<close> belongs to the kubernetes.core collection and is a
  parameter: with \<^verbatim>\<open>fail=True\<close> it either fails the module or returns the handle.
  \<^verbatim>\<open>if namespace:\<close> is false for \<^verbatim>\<open>None\<close> and for the empty string. Only the
  namespaced call is inside a \<^verbatim>\<open>try\<close>.
\<close>

definition retrieve_msg :: "string \<Rightarrow> string \<Rightarrow> string" where
  "retrieve_msg ns cause =
     ''Failed to retrieve TemplateInstances in namespace '' @ [CHR 0x27] @ ns @ [CHR 0x27]
       @ '': '' @ cause"

definition execute_module ::
  "(string \<Rightarrow> string \<Rightarrow> error + ('c, 'b) resource) \<Rightarrow> bool \<Rightarrow> string option \<Rightarrow> 'c world \<Rightarrow>
   error + (template_instance list \<times> 'b results \<times> 'c world)" where
  "execute_module find_resource check_mode ns_param w =
     (case find_resource ''templateinstances'' ''template.openshift.io/v1'' of
        Inl e \<Rightarrow> Inl e
      | Inr resource \<Rightarrow>
          (case (case ns_param of
                   None \<Rightarrow>
                     (case resource_get resource None (cluster w) of
                        Inl exc \<Rightarrow> Inl (Uncaught exc)
                      | Inr tis \<Rightarrow> Inr tis)
                 | Some ns \<Rightarrow>
                     if ns \<noteq> [] then
                       (case resource_get resource (Some ns) (cluster w) of
                          Inl (DynamicApiError st reason body txt) \<Rightarrow>
                            Inl (FailJson (retrieve_msg ns body)
                                   [(''error'', PyInt st), (''status'', PyInt st),
                                    (''reason'', PyStr reason)])
                        | Inl (OtherException txt) \<Rightarrow>
                            Inl (FailJson (retrieve_msg ns txt)
                                   [(''error'', PyStr []), (''status'', PyStr []),
                                    (''reason'', PyStr [])])
                        | Inr tis \<Rightarrow> Inr tis)
                     else
                       (case resource_get resource None (cluster w) of
                          Inl exc \<Rightarrow> Inl (Uncaught exc)
                        | Inr tis \<Rightarrow> Inr tis)) of
             Inl e \<Rightarrow> Inl e
           | Inr templateinstances \<Rightarrow> perform_migrations check_mode resource templateinstances w))"

section \<open>What the specification calls the transform\<close>

text \<open>
  The specification describes the rewriting as a function of its own (the Reference
  Transformer); the source has no such function, only the loops above. The definitions
  of this section follow the specification's words and are compared with the loops in
  the lemmas below.
\<close>

text \<open>The Transform Table's value for the kind of a reference, if it has one.\<close>

definition canonical :: "template_object \<Rightarrow> string option" where
  "canonical obj =
     (case ref obj of
        None \<Rightarrow> None
      | Some r \<Rightarrow> (case kind r of None \<Rightarrow> None | Some k \<Rightarrow> transforms k))"

text \<open>
  A stale reference: its kind is a key of the table and its apiVersion differs from the
  table's value.
\<close>

definition stale :: "template_object \<Rightarrow> bool" where
  "stale obj =
     (case ref obj of
        None \<Rightarrow> False
      | Some r \<Rightarrow>
          (case canonical obj of
             None \<Rightarrow> False
           | Some v \<Rightarrow> (case apiVersion r of None \<Rightarrow> False | Some a \<Rightarrow> a \<noteq> v)))"

text \<open>A stale reference gets the table's value as apiVersion; any other is left alone.\<close>

definition rewrite :: "template_object \<Rightarrow> template_object" where
  "rewrite obj =
     (if stale obj
      then obj\<lparr>ref := map_option (\<lambda>r. r\<lparr>apiVersion := canonical obj\<rparr>) (ref obj)\<rparr>
      else obj)"

text \<open>The list of references when the first \<open>j\<close> entries have been visited.\<close>

definition rewrite_upto :: "nat \<Rightarrow> template_object list \<Rightarrow> template_object list" where
  "rewrite_upto j objs = map rewrite (take j objs) @ drop j objs"

text \<open>
  The bodies patched from index \<open>i\<close> on: one for each stale index \<open>j\<close>, the instance with the
  references up to and including \<open>j\<close> visited.
\<close>

definition upto_patches ::
  "template_instance \<Rightarrow> instance_status \<Rightarrow> template_object list \<Rightarrow> nat \<Rightarrow> template_instance list" where
  "upto_patches ti st orig i =
     map (\<lambda>j. with_objects ti st (rewrite_upto (Suc j) orig))
       (filter (\<lambda>j. stale (orig ! j)) [i..<length orig])"

text \<open>The references of an instance; none when \<^verbatim>\<open>status\<close> or \<^verbatim>\<open>objects\<close> is missing.\<close>

definition instance_objects :: "template_instance \<Rightarrow> template_object list" where
  "instance_objects ti =
     (case status ti of
        None \<Rightarrow> []
      | Some st \<Rightarrow> (case objects st of None \<Rightarrow> [] | Some objs \<Rightarrow> objs))"

text \<open>The instance with every stale reference rewritten.\<close>

definition transformed :: "template_instance \<Rightarrow> template_instance" where
  "transformed ti =
     (case status ti of
        None \<Rightarrow> ti
      | Some st \<Rightarrow>
          (case objects st of None \<Rightarrow> ti | Some objs \<Rightarrow> with_objects ti st (map rewrite objs)))"

text \<open>The bodies patched for one instance outside check mode.\<close>

definition instance_patches :: "template_instance \<Rightarrow> template_instance list" where
  "instance_patches ti =
     (case status ti of
        None \<Rightarrow> []
      | Some st \<Rightarrow> (case objects st of None \<Rightarrow> [] | Some objs \<Rightarrow> upto_patches ti st objs 0))"

text \<open>
  The keys the inner loop subscripts are there: \<^verbatim>\<open>ref\<close>, \<^verbatim>\<open>kind\<close>, and \<^verbatim>\<open>apiVersion\<close> when the
  kind is in the table (the \<^verbatim>\<open>and\<close> of the source reads \<^verbatim>\<open>apiVersion\<close> only then).
\<close>

definition keys_present :: "template_object \<Rightarrow> bool" where
  "keys_present obj =
     (case ref obj of
        None \<Rightarrow> False
      | Some r \<Rightarrow>
          (case kind r of
             None \<Rightarrow> False
           | Some k \<Rightarrow> (case transforms k of None \<Rightarrow> True | Some v \<Rightarrow> apiVersion r \<noteq> None)))"

text \<open>An instance the loops read without a \<^verbatim>\<open>KeyError\<close>.\<close>

definition readable :: "template_instance \<Rightarrow> bool" where
  "readable ti = (status ti \<noteq> None \<and> list_all keys_present (instance_objects ti))"

text \<open>
  The invariant behind the \<^verbatim>\<open>result\<close> entry: since the list \<open>base\<close> of earlier calls, either
  nothing was patched and \<^verbatim>\<open>result\<close> is the empty list, or \<^verbatim>\<open>result\<close> is what the server
  answered to the last patch, which left the cluster as it is now.
\<close>

definition answers_last ::
  "('c, 'b) resource \<Rightarrow> template_instance list \<Rightarrow> 'b results \<times> 'c world \<Rightarrow> bool" where
  "answers_last R base s =
     (case s of (res, w) \<Rightarrow>
        (\<exists>new. patch_calls w = base @ new \<and>
           (case result res of
              EmptyList \<Rightarrow> new = []
            | Body b \<Rightarrow> new \<noteq> [] \<and> (\<exists>c. status_patch R (last new) c = Inr (b, cluster w)))))"

section \<open>Example data\<close>

text \<open>
  Three references as in the module's \<^verbatim>\<open>RETURN\<close> sample, two of them before and after the
  migration, an instance around a list of references, and a server that refuses every
  list call and accepts every patch, answering with the body under a new resourceVersion
  and counting the patches in the cluster state.
\<close>

definition route_v1 :: template_object where
  "route_v1 = \<lparr>ref = Some \<lparr>kind = Some ''Route'', apiVersion = Some ''v1'', name = ''route'',
                 namespace = ''test'', uid = ''5b5411de''\<rparr>\<rparr>"

definition route_new :: template_object where
  "route_new = \<lparr>ref = Some \<lparr>kind = Some ''Route'', apiVersion = Some ''route.openshift.io/v1.Route'',
                 name = ''route'', namespace = ''test'', uid = ''5b5411de''\<rparr>\<rparr>"

definition secret_v1 :: template_object where
  "secret_v1 = \<lparr>ref = Some \<lparr>kind = Some ''Secret'', apiVersion = Some ''v1'', name = ''secret'',
                 namespace = ''test'', uid = ''cadf2582''\<rparr>\<rparr>"

definition build_v1 :: template_object where
  "build_v1 = \<lparr>ref = Some \<lparr>kind = Some ''Build'', apiVersion = Some ''v1'', name = ''build'',
                 namespace = ''test'', uid = ''3b527f88''\<rparr>\<rparr>"

definition build_new :: template_object where
  "build_new = \<lparr>ref = Some \<lparr>kind = Some ''Build'', apiVersion = Some ''build.openshift.io/v1.Build'',
                 name = ''build'', namespace = ''test'', uid = ''3b527f88''\<rparr>\<rparr>"

definition instance_with :: "string \<Rightarrow> template_object list \<Rightarrow> template_instance" where
  "instance_with nm objs =
     \<lparr>metadata_name = nm, metadata_namespace = ''test'', resourceVersion = ''230336'',
      spec = ''{}'', status = Some \<lparr>objects = Some objs, conditions = ''Ready''\<rparr>\<rparr>"

definition demo_resource :: "(nat, template_instance) resource" where
  "demo_resource =
     \<lparr>resource_get = (\<lambda>ns c. Inl (DynamicApiError 403 ''Forbidden'' ''denied'' ''403 Forbidden'')),
      status_patch = (\<lambda>body c. Inr (body\<lparr>resourceVersion := ''patched''\<rparr>, Suc c))\<rparr>"

definition start :: "nat world" where
  "start = \<lparr>cluster = 0, patch_calls = []\<rparr>"

section \<open>The loops compute the transform\<close>

lemmas run_simps =
  perform_migrations_def migrate_instance_def migrate_object_def patch_template_instance_def
  with_objects_def transforms_def instance_with_def demo_resource_def start_def Let_def
  route_v1_def route_new_def secret_v1_def build_v1_def build_new_def

lemma migrate_object_Inr:
  assumes "migrate_object cm R ti st i (objs, res, w) = Inr (objs', res', w')"
  shows "objs' = objs[i := rewrite (objs ! i)]"
    and "changed res' = (changed res \<or> stale (objs ! i))"
    and "\<not> stale (objs ! i) \<Longrightarrow> res' = res \<and> w' = w"
    and "cm \<Longrightarrow> w' = w \<and> result res' = result res"
    and "\<not> cm \<Longrightarrow> patch_calls w' = patch_calls w @
           (if stale (objs ! i) then [with_objects ti st (objs[i := rewrite (objs ! i)])] else [])"
  using assms
  by (auto simp: migrate_object_def stale_def rewrite_def canonical_def Let_def
        patch_template_instance_def
      split: option.splits if_splits sum.splits prod.splits)

lemma rewrite_upto_nth: "i < length orig \<Longrightarrow> rewrite_upto i orig ! i = orig ! i"
  by (simp add: rewrite_upto_def nth_append)

lemma rewrite_upto_Suc:
  "i < length orig \<Longrightarrow> (rewrite_upto i orig)[i := rewrite (orig ! i)] = rewrite_upto (Suc i) orig"
  by (simp add: rewrite_upto_def take_Suc_conv_app_nth list_update_append
        flip: Cons_nth_drop_Suc)

lemma rewrite_upto_length: "rewrite_upto (length orig) orig = map rewrite orig"
  by (simp add: rewrite_upto_def)

lemma for_objects_Inr:
  assumes "for_objects cm R ti st [i..<length orig] (rewrite_upto i orig, res, w) = Inr (objs', res', w')"
    and "i \<le> length orig"
  shows "objs' = map rewrite orig
       \<and> changed res' = (changed res \<or> (\<exists>j. i \<le> j \<and> j < length orig \<and> stale (orig ! j)))
       \<and> ((\<forall>j. i \<le> j \<and> j < length orig \<longrightarrow> \<not> stale (orig ! j)) \<longrightarrow> res' = res \<and> w' = w)
       \<and> (cm \<longrightarrow> w' = w \<and> result res' = result res)
       \<and> (\<not> cm \<longrightarrow> patch_calls w' = patch_calls w @ upto_patches ti st orig i)"
  using assms
proof (induction "length orig - i" arbitrary: i res w)
  case 0
  then have "i = length orig" by simp
  with 0 show ?case by (auto simp: rewrite_upto_length upto_patches_def)
next
  case (Suc n)
  then have lt: "i < length orig" by simp
  then have upt: "[i..<length orig] = i # [Suc i..<length orig]"
    by (simp add: upt_conv_Cons)
  from Suc.prems(1) obtain objs1 res1 w1 where
    step: "migrate_object cm R ti st i (rewrite_upto i orig, res, w) = Inr (objs1, res1, w1)"
    and rest: "for_objects cm R ti st [Suc i..<length orig] (objs1, res1, w1) = Inr (objs', res', w')"
    by (auto simp: upt split: sum.splits)
  note S = migrate_object_Inr[OF step, unfolded rewrite_upto_nth[OF lt] rewrite_upto_Suc[OF lt]]
  have n: "n = length orig - Suc i" using Suc.hyps(2) by simp
  have le: "Suc i \<le> length orig" using lt by simp
  note IH = Suc.hyps(1)[OF n rest[unfolded S(1)] le]
  have ex: "(\<exists>j. i \<le> j \<and> j < length orig \<and> stale (orig ! j)) =
            (stale (orig ! i) \<or> (\<exists>j. Suc i \<le> j \<and> j < length orig \<and> stale (orig ! j)))"
    using lt by (metis Suc_leD Suc_leI le_neq_implies_less order_refl)
  have pat: "upto_patches ti st orig i =
       (if stale (orig ! i) then [with_objects ti st (rewrite_upto (Suc i) orig)] else [])
       @ upto_patches ti st orig (Suc i)"
    by (simp add: upto_patches_def upt)
  show ?case
  proof (intro conjI impI)
    show "objs' = map rewrite orig" using IH by simp
    show "changed res' = (changed res \<or> (\<exists>j. i \<le> j \<and> j < length orig \<and> stale (orig ! j)))"
      using IH S(2) ex by simp
    show "res' = res" if "\<forall>j. i \<le> j \<and> j < length orig \<longrightarrow> \<not> stale (orig ! j)"
      using IH S(3) that lt by simp
    show "w' = w" if "\<forall>j. i \<le> j \<and> j < length orig \<longrightarrow> \<not> stale (orig ! j)"
      using IH S(3) that lt by simp
    show "w' = w" if cm using IH S(4) that by simp
    show "result res' = result res" if cm using IH S(4) that by simp
    show "patch_calls w' = patch_calls w @ upto_patches ti st orig i" if "\<not> cm"
      using IH S(5) that pat by simp
  qed
qed

lemma with_objects_same:
  "status ti = Some st \<Longrightarrow> objects st = Some objs \<Longrightarrow> with_objects ti st objs = ti"
  by (simp add: with_objects_def)

lemma rewrite_upto_0: "rewrite_upto 0 objs = objs"
  by (simp add: rewrite_upto_def)

lemma migrate_instance_Inr:
  assumes "migrate_instance cm R ti (res, w) = Inr (ti', res', w')"
  shows "ti' = transformed ti
       \<and> changed res' = (changed res \<or> (\<exists>obj \<in> set (instance_objects ti). stale obj))
       \<and> ((\<forall>obj \<in> set (instance_objects ti). \<not> stale obj) \<longrightarrow> res' = res \<and> w' = w)
       \<and> (cm \<longrightarrow> w' = w \<and> result res' = result res)
       \<and> (\<not> cm \<longrightarrow> patch_calls w' = patch_calls w @ instance_patches ti)"
proof -
  from assms obtain st where st: "status ti = Some st"
    by (auto simp: migrate_instance_def split: option.splits)
  show ?thesis
  proof (cases "objects st")
    case None
    with assms st show ?thesis
      by (auto simp: migrate_instance_def transformed_def instance_objects_def instance_patches_def)
  next
    case (Some objs)
    show ?thesis
    proof (cases "objs = []")
      case True
      with assms st Some show ?thesis
        by (auto simp: migrate_instance_def transformed_def instance_objects_def
              instance_patches_def upto_patches_def with_objects_same)
    next
      case False
      with assms st Some obtain objs' where
        loop: "for_objects cm R ti st [0..<length objs] (rewrite_upto 0 objs, res, w) = Inr (objs', res', w')"
        and ti': "ti' = with_objects ti st objs'"
        by (auto simp: migrate_instance_def rewrite_upto_0 split: sum.splits)
      note L = for_objects_Inr[OF loop, simplified]
      have ex: "(\<exists>obj \<in> set objs. stale obj) = (\<exists>j<length objs. stale (objs ! j))"
        by (metis in_set_conv_nth)
      from L ti' st Some ex show ?thesis
        by (simp add: transformed_def instance_objects_def instance_patches_def)
    qed
  qed
qed

lemma for_templateinstances_Inr:
  assumes "for_templateinstances cm R tis (res, w) = Inr (tis', res', w')"
  shows "tis' = map transformed tis
       \<and> changed res' = (changed res \<or> (\<exists>ti \<in> set tis. \<exists>obj \<in> set (instance_objects ti). stale obj))
       \<and> (cm \<longrightarrow> w' = w \<and> result res' = result res)
       \<and> (\<not> cm \<longrightarrow> patch_calls w' = patch_calls w @ concat (map instance_patches tis))"
  using assms
proof (induction tis arbitrary: res w tis')
  case Nil
  then show ?case by simp
next
  case (Cons ti tis)
  from Cons.prems obtain ti1 res1 w1 tis1 where
    one: "migrate_instance cm R ti (res, w) = Inr (ti1, res1, w1)"
    and rest: "for_templateinstances cm R tis (res1, w1) = Inr (tis1, res', w')"
    and tis': "tis' = ti1 # tis1"
    by (auto split: sum.splits)
  note M = migrate_instance_Inr[OF one]
  note IH = Cons.IH[OF rest]
  from M IH tis' show ?case by auto
qed

lemma migrate_object_keys:
  "migrate_object cm R ti st i (objs, res, w) = Inr s' \<Longrightarrow> keys_present (objs ! i)"
  by (auto simp: migrate_object_def keys_present_def split: option.splits)

lemma migrate_object_fresh:
  "keys_present (objs ! i) \<Longrightarrow> \<not> stale (objs ! i) \<Longrightarrow>
   migrate_object cm R ti st i (objs, res, w) = Inr (objs, res, w)"
  by (auto simp: migrate_object_def keys_present_def stale_def canonical_def split: option.splits)

lemma staleE:
  assumes "stale obj"
  obtains r k v a where "ref obj = Some r" "kind r = Some k" "transforms k = Some v"
    "apiVersion r = Some a" "a \<noteq> v"
  using assms by (auto simp: stale_def canonical_def split: option.splits)

lemma migrate_object_total:
  assumes "keys_present (objs ! i)"
    and "cm \<or> (\<forall>body c. \<exists>out. status_patch R body c = Inr out)"
  shows "\<exists>s'. migrate_object cm R ti st i (objs, res, w) = Inr s'"
proof (cases "stale (objs ! i)")
  case False
  with assms(1) show ?thesis by (simp add: migrate_object_fresh)
next
  case True
  then obtain r k v a where f: "ref (objs ! i) = Some r" "kind r = Some k"
    "transforms k = Some v" "apiVersion r = Some a" "a \<noteq> v"
    by (rule staleE)
  show ?thesis
  proof (cases cm)
    case True
    with f show ?thesis by (simp add: migrate_object_def)
  next
    case False
    with assms(2) have ok: "\<forall>body c. \<exists>out. status_patch R body c = Inr out" by simp
    define body where "body = with_objects ti st (objs[i := (objs ! i)\<lparr>ref := Some (r\<lparr>apiVersion := Some v\<rparr>)\<rparr>])"
    from ok obtain b c' where "status_patch R body (cluster w) = Inr (b, c')"
      by (metis surj_pair)
    then have "\<exists>w'. patch_template_instance R body w = Inr (b, w')"
      by (simp add: patch_template_instance_def)
    with f False show ?thesis
      by (auto simp: migrate_object_def body_def)
  qed
qed

lemma rewrite_fresh: "keys_present obj \<Longrightarrow> keys_present (rewrite obj) \<and> \<not> stale (rewrite obj)"
  by (auto simp: keys_present_def rewrite_def stale_def canonical_def split: option.splits)

lemma rewrite_id: "rewrite obj = obj \<longleftrightarrow> \<not> stale obj"
proof
  show "rewrite obj = obj \<Longrightarrow> \<not> stale obj"
  proof
    assume eq: "rewrite obj = obj" and "stale obj"
    from \<open>stale obj\<close> obtain r k v a where f: "ref obj = Some r" "kind r = Some k"
      "transforms k = Some v" "apiVersion r = Some a" "a \<noteq> v"
      by (rule staleE)
    from \<open>stale obj\<close> f have "ref (rewrite obj) = Some (r\<lparr>apiVersion := Some v\<rparr>)"
      by (simp add: rewrite_def canonical_def)
    with eq f have "r\<lparr>apiVersion := Some v\<rparr> = r" by simp
    then have "apiVersion (r\<lparr>apiVersion := Some v\<rparr>) = apiVersion r" by simp
    with f show False by simp
  qed
  show "\<not> stale obj \<Longrightarrow> rewrite obj = obj" by (simp add: rewrite_def)
qed

lemma for_objects_total:
  assumes "\<forall>j<length orig. keys_present (orig ! j)"
    and "cm \<or> (\<forall>body c. \<exists>out. status_patch R body c = Inr out)"
    and "i \<le> length orig"
  shows "\<exists>s'. for_objects cm R ti st [i..<length orig] (rewrite_upto i orig, res, w) = Inr s'"
  using assms(3)
proof (induction "length orig - i" arbitrary: i res w)
  case 0
  then show ?case by simp
next
  case (Suc n)
  then have lt: "i < length orig" by simp
  then have upt: "[i..<length orig] = i # [Suc i..<length orig]"
    by (simp add: upt_conv_Cons)
  from assms(1) lt have "keys_present (rewrite_upto i orig ! i)"
    by (simp add: rewrite_upto_nth)
  from migrate_object_total[OF this assms(2)] obtain objs1 res1 w1 where
    step: "migrate_object cm R ti st i (rewrite_upto i orig, res, w) = Inr (objs1, res1, w1)"
    by (metis prod_cases3)
  have objs1: "objs1 = rewrite_upto (Suc i) orig"
    using migrate_object_Inr(1)[OF step] lt by (simp add: rewrite_upto_nth rewrite_upto_Suc)
  have n: "n = length orig - Suc i" using Suc.hyps(2) by simp
  have le: "Suc i \<le> length orig" using lt by simp
  from Suc.hyps(1)[OF n le] step objs1 show ?case by (simp add: upt)
qed

lemma for_objects_keys:
  assumes "for_objects cm R ti st [i..<length orig] (rewrite_upto i orig, res, w) = Inr s'"
    and "i \<le> length orig"
  shows "\<forall>j. i \<le> j \<and> j < length orig \<longrightarrow> keys_present (orig ! j)"
  using assms
proof (induction "length orig - i" arbitrary: i res w)
  case 0
  then show ?case by auto
next
  case (Suc n)
  then have lt: "i < length orig" by simp
  then have upt: "[i..<length orig] = i # [Suc i..<length orig]"
    by (simp add: upt_conv_Cons)
  from Suc.prems(1) obtain objs1 res1 w1 where
    step: "migrate_object cm R ti st i (rewrite_upto i orig, res, w) = Inr (objs1, res1, w1)"
    and rest: "for_objects cm R ti st [Suc i..<length orig] (objs1, res1, w1) = Inr s'"
    by (auto simp: upt split: sum.splits)
  have objs1: "objs1 = rewrite_upto (Suc i) orig"
    using migrate_object_Inr(1)[OF step] lt by (simp add: rewrite_upto_nth rewrite_upto_Suc)
  have here: "keys_present (orig ! i)"
    using migrate_object_keys[OF step] lt by (simp add: rewrite_upto_nth)
  have n: "n = length orig - Suc i" using Suc.hyps(2) by simp
  have le: "Suc i \<le> length orig" using lt by simp
  from Suc.hyps(1)[OF n rest[unfolded objs1] le]
  have later: "\<forall>j. Suc i \<le> j \<and> j < length orig \<longrightarrow> keys_present (orig ! j)" .
  show ?case
  proof (intro allI impI)
    fix j assume "i \<le> j \<and> j < length orig"
    then show "keys_present (orig ! j)"
      using here later by (cases "j = i") auto
  qed
qed

lemma for_objects_fresh:
  assumes "\<forall>i \<in> set idx. keys_present (objs ! i) \<and> \<not> stale (objs ! i)"
  shows "for_objects cm R ti st idx (objs, res, w) = Inr (objs, res, w)"
  using assms by (induction idx) (simp_all add: migrate_object_fresh)

lemma migrate_instance_keys:
  assumes "migrate_instance cm R ti s = Inr out"
  shows "readable ti"
proof -
  obtain res w where s: "s = (res, w)" by (cases s)
  from assms s obtain st where st: "status ti = Some st"
    by (auto simp: migrate_instance_def split: option.splits)
  show ?thesis
  proof (cases "objects st")
    case None
    with st show ?thesis by (simp add: readable_def instance_objects_def)
  next
    case (Some objs)
    show ?thesis
    proof (cases "objs = []")
      case True
      with st Some show ?thesis by (simp add: readable_def instance_objects_def)
    next
      case False
      with assms s st Some obtain s' where
        "for_objects cm R ti st [0..<length objs] (rewrite_upto 0 objs, res, w) = Inr s'"
        by (auto simp: migrate_instance_def rewrite_upto_0 split: sum.splits)
      from for_objects_keys[OF this] have "\<forall>j<length objs. keys_present (objs ! j)" by simp
      with st Some show ?thesis
        by (simp add: readable_def instance_objects_def list_all_length)
    qed
  qed
qed

lemma migrate_instance_total:
  assumes "readable ti"
    and "cm \<or> (\<forall>body c. \<exists>out. status_patch R body c = Inr out)"
  shows "\<exists>out. migrate_instance cm R ti (res, w) = Inr out"
proof -
  from assms(1) obtain st where st: "status ti = Some st"
    by (auto simp: readable_def)
  show ?thesis
  proof (cases "objects st")
    case None
    with st show ?thesis by (simp add: migrate_instance_def)
  next
    case (Some objs)
    with assms(1) st have "\<forall>j<length objs. keys_present (objs ! j)"
      by (simp add: readable_def instance_objects_def list_all_length)
    from for_objects_total[OF this assms(2), of 0 ti st res w] obtain s' where
      "for_objects cm R ti st [0..<length objs] (objs, res, w) = Inr s'"
      by (auto simp: rewrite_upto_0)
    with st Some show ?thesis
      by (cases s') (simp add: migrate_instance_def)
  qed
qed

lemma for_templateinstances_total:
  assumes "list_all readable tis"
    and "cm \<or> (\<forall>body c. \<exists>out. status_patch R body c = Inr out)"
  shows "\<exists>out. for_templateinstances cm R tis (res, w) = Inr out"
  using assms(1)
proof (induction tis arbitrary: res w)
  case Nil
  then show ?case by simp
next
  case (Cons ti tis)
  then have "readable ti" and rest: "list_all readable tis" by simp_all
  from migrate_instance_total[OF this(1) assms(2)] obtain ti1 res1 w1 where
    one: "migrate_instance cm R ti (res, w) = Inr (ti1, res1, w1)"
    by (metis prod_cases3)
  from Cons.IH[OF rest] obtain out where
    "for_templateinstances cm R tis (res1, w1) = Inr out" by blast
  with one show ?case by (cases out) simp
qed

lemma for_templateinstances_keys:
  "for_templateinstances cm R tis s = Inr out \<Longrightarrow> list_all readable tis"
proof (induction tis arbitrary: s out)
  case Nil
  then show ?case by simp
next
  case (Cons ti tis)
  from Cons.prems obtain o1 s1 out1 where
    one: "migrate_instance cm R ti s = Inr (o1, s1)"
    and rest: "for_templateinstances cm R tis s1 = Inr out1"
    by (auto split: sum.splits)
  from migrate_instance_keys[OF one] Cons.IH[OF rest] show ?case by simp
qed

lemma transformed_fixed:
  assumes "readable ti"
  shows "migrate_instance cm R (transformed ti) (res, w) = Inr (transformed ti, res, w)"
proof -
  from assms obtain st where st: "status ti = Some st"
    by (auto simp: readable_def)
  show ?thesis
  proof (cases "objects st")
    case None
    with st show ?thesis by (simp add: migrate_instance_def transformed_def)
  next
    case (Some objs)
    with assms st have keys: "\<forall>j<length objs. keys_present (objs ! j)"
      by (simp add: readable_def instance_objects_def list_all_length)
    let ?objs = "map rewrite objs"
    let ?st = "st\<lparr>objects := Some ?objs\<rparr>"
    have t: "transformed ti = with_objects ti st ?objs"
      using st Some by (simp add: transformed_def)
    have st': "status (transformed ti) = Some ?st" "objects ?st = Some ?objs"
      by (simp_all add: t with_objects_def)
    have "\<forall>i \<in> set [0..<length ?objs]. keys_present (?objs ! i) \<and> \<not> stale (?objs ! i)"
      using keys by (simp add: rewrite_fresh)
    from for_objects_fresh[OF this]
    have "for_objects cm R (transformed ti) ?st [0..<length ?objs] (?objs, res, w) = Inr (?objs, res, w)" .
    with st' show ?thesis
      by (simp add: migrate_instance_def with_objects_same)
  qed
qed

lemma patch_template_instance_Inr:
  "patch_template_instance R body w = Inr (b, w') \<Longrightarrow>
   status_patch R body (cluster w) = Inr (b, cluster w') \<and> patch_calls w' = patch_calls w @ [body]"
  by (auto simp: patch_template_instance_def split: sum.splits)

lemma migrate_object_cases:
  assumes "migrate_object cm R ti st i (objs, res, w) = Inr (objs', res', w')"
  shows "(res' = res \<and> w' = w)
       \<or> (cm \<and> w' = w \<and> result res' = result res)
       \<or> (\<exists>body b. patch_template_instance R body w = Inr (b, w') \<and> result res' = Body b)"
  using assms
  by (auto simp: migrate_object_def Let_def split: option.splits if_splits sum.splits)

lemma migrate_object_last:
  assumes "migrate_object cm R ti st i (objs, res, w) = Inr (objs', res', w')"
    and "answers_last R base (res, w)"
  shows "answers_last R base (res', w')"
proof -
  from migrate_object_cases[OF assms(1)]
  consider "res' = res \<and> w' = w" | "w' = w \<and> result res' = result res"
    | body b where "patch_template_instance R body w = Inr (b, w')" "result res' = Body b"
    by blast
  then show ?thesis
  proof cases
    case 1
    with assms(2) show ?thesis by simp
  next
    case 2
    with assms(2) show ?thesis by (simp add: answers_last_def)
  next
    case 3
    note P = patch_template_instance_Inr[OF 3(1)]
    from assms(2) obtain new where "patch_calls w = base @ new"
      by (auto simp: answers_last_def)
    with P have "patch_calls w' = base @ (new @ [body])" by simp
    moreover have "status_patch R (last (new @ [body])) (cluster w) = Inr (b, cluster w')"
      using P by simp
    ultimately show ?thesis
      unfolding answers_last_def using 3(2) by (auto simp del: append_assoc)
  qed
qed

lemma for_objects_last:
  "for_objects cm R ti st idx (objs, s) = Inr (objs', s') \<Longrightarrow> answers_last R base s \<Longrightarrow>
   answers_last R base s'"
proof (induction idx arbitrary: objs s)
  case Nil
  then show ?case by simp
next
  case (Cons i idx)
  obtain res w where s: "s = (res, w)" by (cases s)
  from Cons.prems(1) obtain objs1 res1 w1 where
    step: "migrate_object cm R ti st i (objs, res, w) = Inr (objs1, res1, w1)"
    and rest: "for_objects cm R ti st idx (objs1, res1, w1) = Inr (objs', s')"
    by (auto simp: s split: sum.splits)
  have "answers_last R base (res1, w1)"
    using migrate_object_last[OF step] Cons.prems(2) by (simp add: s)
  from Cons.IH[OF rest this] show ?case .
qed

lemma migrate_instance_last:
  assumes "migrate_instance cm R ti s = Inr (ti', s')" and "answers_last R base s"
  shows "answers_last R base s'"
proof -
  obtain res w where s: "s = (res, w)" by (cases s)
  from assms(1) s consider "s' = s"
    | st objs objs' where "for_objects cm R ti st [0..<length objs] (objs, s) = Inr (objs', s')"
    by (auto simp: migrate_instance_def split: option.splits if_splits sum.splits)
  then show ?thesis
  proof cases
    case 1
    with assms(2) show ?thesis by simp
  next
    case 2
    from for_objects_last[OF 2 assms(2)] show ?thesis .
  qed
qed

lemma for_templateinstances_last:
  "for_templateinstances cm R tis s = Inr (tis', s') \<Longrightarrow> answers_last R base s \<Longrightarrow>
   answers_last R base s'"
proof (induction tis arbitrary: s tis')
  case Nil
  then show ?case by simp
next
  case (Cons ti tis)
  from Cons.prems(1) obtain ti1 s1 tis1 where
    one: "migrate_instance cm R ti s = Inr (ti1, s1)"
    and rest: "for_templateinstances cm R tis s1 = Inr (tis1, s')"
    by (auto split: sum.splits)
  from Cons.IH[OF rest migrate_instance_last[OF one Cons.prems(2)]] show ?case .
qed

lemma filter_upt_last:
  "filter P [0..<n] \<noteq> [] \<Longrightarrow>
   last (filter P [0..<n]) < n \<and> (\<forall>k. last (filter P [0..<n]) < k \<and> k < n \<longrightarrow> \<not> P k)"
proof (induction n)
  case 0
  then show ?case by simp
next
  case (Suc n)
  show ?case
  proof (cases "P n")
    case True
    then have "last (filter P [0..<Suc n]) = n" by simp
    then show ?thesis by (simp only:) auto
  next
    case False
    with Suc.prems have ne: "filter P [0..<n] \<noteq> []" by simp
    from False have eq: "filter P [0..<Suc n] = filter P [0..<n]" by simp
    from Suc.IH[OF ne] have lt: "last (filter P [0..<n]) < n"
      and after: "\<forall>k. last (filter P [0..<n]) < k \<and> k < n \<longrightarrow> \<not> P k" by blast+
    have "\<not> P k" if "last (filter P [0..<n]) < k" "k < Suc n" for k
    proof (cases "k = n")
      case True
      with False show ?thesis by simp
    next
      case False
      with that have "k < n" by simp
      with after that show ?thesis by blast
    qed
    with lt show ?thesis unfolding eq by (simp only: less_Suc_eq) blast
  qed
qed

lemma rewrite_upto_all:
  assumes "j \<le> length objs" and "\<forall>k. j \<le> k \<and> k < length objs \<longrightarrow> \<not> stale (objs ! k)"
  shows "rewrite_upto j objs = map rewrite objs"
proof (rule nth_equalityI)
  show "length (rewrite_upto j objs) = length (map rewrite objs)"
    using assms(1) by (simp add: rewrite_upto_def)
next
  fix i assume "i < length (rewrite_upto j objs)"
  with assms(1) have i: "i < length objs" by (simp add: rewrite_upto_def)
  show "rewrite_upto j objs ! i = map rewrite objs ! i"
  proof (cases "i < j")
    case True
    with i assms(1) show ?thesis by (simp add: rewrite_upto_def nth_append)
  next
    case False
    with i assms(2) have "\<not> stale (objs ! i)" by simp
    then have "rewrite (objs ! i) = objs ! i" by (simp add: rewrite_def)
    with False i assms(1) show ?thesis by (simp add: rewrite_upto_def nth_append)
  qed
qed

lemma filter_nth_upt:
  "map ((!) xs) (filter (\<lambda>j. P (xs ! j)) [0..<length xs]) = filter P xs"
proof -
  have "filter P (map ((!) xs) [0..<length xs]) =
        map ((!) xs) (filter (P \<circ> (!) xs) [0..<length xs])"
    by (rule filter_map)
  then show ?thesis by (simp only: map_nth comp_def)
qed

lemma upto_patches_length:
  "length (upto_patches ti st objs 0) = length (filter stale objs)"
proof -
  have "length (upto_patches ti st objs 0) =
        length (map ((!) objs) (filter (\<lambda>j. stale (objs ! j)) [0..<length objs]))"
    by (simp only: upto_patches_def length_map)
  then show ?thesis by (simp only: filter_nth_upt)
qed

lemma upto_patches_last:
  assumes "upto_patches ti st objs 0 \<noteq> []"
  shows "last (upto_patches ti st objs 0) = with_objects ti st (map rewrite objs)"
proof -
  define js where "js = filter (\<lambda>j. stale (objs ! j)) [0..<length objs]"
  have ups: "upto_patches ti st objs 0 = map (\<lambda>j. with_objects ti st (rewrite_upto (Suc j) objs)) js"
    by (simp only: upto_patches_def js_def)
  from assms have ne: "js \<noteq> []" by (simp only: ups map_is_Nil_conv not_False_eq_True)
  from filter_upt_last[of "\<lambda>j. stale (objs ! j)" "length objs"] ne
  have lt: "last js < length objs"
    and after: "\<forall>k. last js < k \<and> k < length objs \<longrightarrow> \<not> stale (objs ! k)"
    unfolding js_def by blast+
  have le: "Suc (last js) \<le> length objs" using lt by simp
  have after': "\<forall>k. Suc (last js) \<le> k \<and> k < length objs \<longrightarrow> \<not> stale (objs ! k)"
    using after by (simp add: Suc_le_eq)
  have "rewrite_upto (Suc (last js)) objs = map rewrite objs"
    by (rule rewrite_upto_all[OF le after'])
  then show ?thesis
    by (simp only: ups last_map[OF ne])
qed

lemma instance_patches_length:
  "length (instance_patches ti) = length (filter stale (instance_objects ti))"
proof (cases "status ti")
  case None
  then show ?thesis by (simp add: instance_patches_def instance_objects_def)
next
  case (Some st)
  then show ?thesis
    by (cases "objects st")
       (simp_all add: instance_patches_def instance_objects_def upto_patches_length)
qed

lemma instance_patches_last:
  assumes "instance_patches ti \<noteq> []"
  shows "last (instance_patches ti) = transformed ti"
proof -
  from assms obtain st objs where st: "status ti = Some st" and objs: "objects st = Some objs"
    by (auto simp: instance_patches_def split: option.splits)
  then have ip: "instance_patches ti = upto_patches ti st objs 0"
    by (simp add: instance_patches_def)
  from assms have "last (upto_patches ti st objs 0) = with_objects ti st (map rewrite objs)"
    unfolding ip by (rule upto_patches_last)
  with st objs show ?thesis by (simp add: ip transformed_def)
qed

lemma map_rewrite_id: "map rewrite objs = objs \<longleftrightarrow> (\<forall>obj \<in> set objs. \<not> stale obj)"
  by (induction objs) (simp_all add: rewrite_id)

lemma with_objects_id:
  assumes "status ti = Some st" and "objects st = Some objs"
  shows "with_objects ti st objs' = ti \<longleftrightarrow> objs' = objs"
proof
  assume eq: "with_objects ti st objs' = ti"
  have "status (with_objects ti st objs') = Some (st\<lparr>objects := Some objs'\<rparr>)"
    by (simp add: with_objects_def)
  with eq assms(1) have "st\<lparr>objects := Some objs'\<rparr> = st" by simp
  then have "objects (st\<lparr>objects := Some objs'\<rparr>) = objects st" by (rule arg_cong)
  with assms(2) show "objs' = objs" by simp
next
  assume "objs' = objs"
  with assms show "with_objects ti st objs' = ti" by (simp add: with_objects_same)
qed

lemma transformed_id:
  "transformed ti = ti \<longleftrightarrow> (\<forall>obj \<in> set (instance_objects ti). \<not> stale obj)"
proof (cases "status ti")
  case None
  then show ?thesis by (simp add: transformed_def instance_objects_def)
next
  case (Some st)
  note st = this
  show ?thesis
  proof (cases "objects st")
    case None
    with st show ?thesis by (simp add: transformed_def instance_objects_def)
  next
    case (Some objs)
    from st Some have t: "transformed ti = with_objects ti st (map rewrite objs)"
      by (simp add: transformed_def)
    from st Some have io: "instance_objects ti = objs"
      by (simp add: instance_objects_def)
    show ?thesis
      unfolding t io by (simp only: with_objects_id[OF st Some] map_rewrite_id)
  qed
qed

lemma map_transformed_id:
  "map transformed tis = tis \<longleftrightarrow>
   (\<forall>ti \<in> set tis. \<forall>obj \<in> set (instance_objects ti). \<not> stale obj)"
  by (induction tis) (simp_all add: transformed_id)

lemma dom_transforms:
  "dom transforms = {''Build'', ''BuildConfig'', ''DeploymentConfig'', ''Route''}"
  by (auto simp: transforms_def split: if_splits)

section \<open>The claims\<close>

text \<open>
  C1. For every TemplateInstance and every ObjectReference in its \<^verbatim>\<open>status.objects\<close>: the
  reference's apiVersion is set to the Transform Table's value exactly when its kind is a
  key of the table and its apiVersion differs from the table's value, and then the run is
  marked changed; a reference whose kind is not in the table, or whose apiVersion equals
  the table's value, is left as it is. The loop over the instance returns whenever its
  keys are present and either check mode is on or no patch fails.
\<close>

theorem rewrite_exactly_when_stale:
  assumes "status ti = Some st" and "objects st = Some objs" and "i < length objs"
  shows "(list_all keys_present objs \<and>
          (check_mode \<or> (\<forall>body c. \<exists>out. status_patch resource body c = Inr out))
            \<longrightarrow> (\<exists>out. migrate_instance check_mode resource ti (res, w) = Inr out))
       \<and> (\<forall>ti' res' w'. migrate_instance check_mode resource ti (res, w) = Inr (ti', res', w') \<longrightarrow>
            (\<exists>r k st' objs'.
               ref (objs ! i) = Some r \<and> kind r = Some k \<and>
               status ti' = Some st' \<and> objects st' = Some objs' \<and>
               (case transforms k of
                  None \<Rightarrow> objs' ! i = objs ! i
                | Some v \<Rightarrow>
                    if apiVersion r \<noteq> Some v
                    then objs' ! i = (objs ! i)\<lparr>ref := Some (r\<lparr>apiVersion := Some v\<rparr>)\<rparr> \<and> changed res'
                    else objs' ! i = objs ! i)))"
proof (intro conjI impI allI)
  assume a: "list_all keys_present objs \<and>
          (check_mode \<or> (\<forall>body c. \<exists>out. status_patch resource body c = Inr out))"
  with assms have "readable ti" by (simp add: readable_def instance_objects_def)
  from migrate_instance_total[OF this] a
  show "\<exists>out. migrate_instance check_mode resource ti (res, w) = Inr out" by blast
next
  fix ti' res' w'
  assume run: "migrate_instance check_mode resource ti (res, w) = Inr (ti', res', w')"
  note M = migrate_instance_Inr[OF run]
  from M assms have ti': "ti' = with_objects ti st (map rewrite objs)"
    by (simp add: transformed_def)
  have io: "instance_objects ti = objs" using assms by (simp add: instance_objects_def)
  from migrate_instance_keys[OF run] assms(3) have "keys_present (objs ! i)"
    by (simp add: readable_def io list_all_length)
  then obtain r k where r: "ref (objs ! i) = Some r" and k: "kind r = Some k"
    and av: "transforms k \<noteq> None \<longrightarrow> apiVersion r \<noteq> None"
    by (auto simp: keys_present_def split: option.splits)
  have st': "status ti' = Some (st\<lparr>objects := Some (map rewrite objs)\<rparr>)"
    "objects (st\<lparr>objects := Some (map rewrite objs)\<rparr>) = Some (map rewrite objs)"
    by (simp_all add: ti' with_objects_def)
  have nth: "map rewrite objs ! i = rewrite (objs ! i)" using assms(3) by simp
  have main: "case transforms k of
          None \<Rightarrow> rewrite (objs ! i) = objs ! i
        | Some v \<Rightarrow>
            if apiVersion r \<noteq> Some v
            then rewrite (objs ! i) = (objs ! i)\<lparr>ref := Some (r\<lparr>apiVersion := Some v\<rparr>)\<rparr> \<and> changed res'
            else rewrite (objs ! i) = objs ! i"
  proof (cases "transforms k")
    case None
    with r k show ?thesis by (simp add: rewrite_def stale_def canonical_def)
  next
    case (Some v)
    with av obtain a where a: "apiVersion r = Some a" by auto
    show ?thesis
    proof (cases "a = v")
      case True
      with Some r k a show ?thesis by (simp add: rewrite_def stale_def canonical_def)
    next
      case False
      with Some r k a have s: "stale (objs ! i)" by (simp add: stale_def canonical_def)
      with assms(3) have "\<exists>obj \<in> set objs. stale obj" by (metis nth_mem)
      with M io have "changed res'" by simp
      with s Some r k a False show ?thesis by (simp add: rewrite_def canonical_def)
    qed
  qed
  show "\<exists>r k st' objs'.
               ref (objs ! i) = Some r \<and> kind r = Some k \<and>
               status ti' = Some st' \<and> objects st' = Some objs' \<and>
               (case transforms k of
                  None \<Rightarrow> objs' ! i = objs ! i
                | Some v \<Rightarrow>
                    if apiVersion r \<noteq> Some v
                    then objs' ! i = (objs ! i)\<lparr>ref := Some (r\<lparr>apiVersion := Some v\<rparr>)\<rparr> \<and> changed res'
                    else objs' ! i = objs ! i)"
    apply (rule exI[of _ r], rule exI[of _ k])
    apply (rule exI[of _ "st\<lparr>objects := Some (map rewrite objs)\<rparr>"])
    apply (rule exI[of _ "map rewrite objs"])
    apply (simp only: nth)
    using r k st' main by simp

qed

theorem rewrite_exactly_when_stale_witness:
  "status (instance_with ''a'' [route_v1, secret_v1, build_v1])
     = Some \<lparr>objects = Some [route_v1, secret_v1, build_v1], conditions = ''Ready''\<rparr>
   \<and> objects \<lparr>objects = Some [route_v1, secret_v1, build_v1], conditions = ''Ready''\<rparr>
     = Some [route_v1, secret_v1, build_v1]
   \<and> 0 < length [route_v1, secret_v1, build_v1]
   \<and> list_all keys_present [route_v1, secret_v1, build_v1]
   \<and> migrate_instance True demo_resource (instance_with ''a'' [route_v1, secret_v1, build_v1])
         (\<lparr>changed = False, result = EmptyList\<rparr>, start)
     = Inr (instance_with ''a'' [route_new, secret_v1, build_new],
            \<lparr>changed = True, result = EmptyList\<rparr>, start)
   \<and> ref (route_v1\<lparr>ref := Some \<lparr>kind = Some ''Route'',
            apiVersion = Some ''route.openshift.io/v1.Route'', name = ''route'',
            namespace = ''test'', uid = ''5b5411de''\<rparr>\<rparr>) = ref route_new"
  using rewrite_exactly_when_stale
    [of "instance_with ''a'' [route_v1, secret_v1, build_v1]"
        "\<lparr>objects = Some [route_v1, secret_v1, build_v1], conditions = ''Ready''\<rparr>"
        "[route_v1, secret_v1, build_v1]" 0 True demo_resource
        "\<lparr>changed = False, result = EmptyList\<rparr>" start]
  by (simp add: run_simps keys_present_def)

text \<open>
  C2 as the specification states it: outside check mode, exactly one patch for each
  instance the transform changed, carrying the body with all of that instance's rewrites.
  The patch is inside the inner loop, so an instance with two stale references is patched
  twice, and the first body has only the first rewrite.
\<close>

theorem two_patches_for_one_instance:
  "perform_migrations False demo_resource
     \<lparr>items = Some [instance_with ''a'' [route_v1, secret_v1, build_v1]]\<rparr> start
   = Inr ([instance_with ''a'' [route_new, secret_v1, build_new]],
          \<lparr>changed = True,
           result = Body ((instance_with ''a'' [route_new, secret_v1, build_new])
                            \<lparr>resourceVersion := ''patched''\<rparr>)\<rparr>,
          \<lparr>cluster = 2,
           patch_calls = [instance_with ''a'' [route_new, secret_v1, build_v1],
                          instance_with ''a'' [route_new, secret_v1, build_new]]\<rparr>)
   \<and> instance_with ''a'' [route_new, secret_v1, build_v1]
       \<noteq> instance_with ''a'' [route_new, secret_v1, build_new]"
  by (simp add: run_simps)

text \<open>
  C2 as the code has it: outside check mode, a run that returns has patched, instance by
  instance in the listed order, once for each rewritten reference (as many patches as the
  instance has stale references), each time with the body as rewritten so far; the last
  patch of an instance carries all of its rewrites, and an instance the transform leaves
  as it is gets no patch.
\<close>

theorem one_patch_per_rewrite:
  assumes "perform_migrations False resource templateinstances w = Inr (tis', res, w')"
    and "items templateinstances = Some tis"
  shows "tis' = map transformed tis
       \<and> patch_calls w' = patch_calls w @ concat (map instance_patches tis)
       \<and> (\<forall>ti \<in> set tis.
            length (instance_patches ti) = length (filter stale (instance_objects ti))
          \<and> (instance_patches ti \<noteq> [] \<longrightarrow> last (instance_patches ti) = transformed ti)
          \<and> (transformed ti = ti \<longrightarrow> instance_patches ti = []))"
proof -
  from assms have run:
    "for_templateinstances False resource tis (\<lparr>changed = False, result = EmptyList\<rparr>, w)
       = Inr (tis', res, w')"
    by (simp add: perform_migrations_def)
  note R = for_templateinstances_Inr[OF run]
  have "instance_patches ti = []" if "transformed ti = ti" for ti
  proof -
    from that have "\<forall>obj \<in> set (instance_objects ti). \<not> stale obj"
      by (simp only: transformed_id)
    then have "filter stale (instance_objects ti) = []" by (simp add: filter_empty_conv)
    then have "length (instance_patches ti) = 0" by (simp only: instance_patches_length list.size)
    then show ?thesis by simp
  qed
  with R show ?thesis
    by (simp add: instance_patches_length instance_patches_last)
qed

theorem one_patch_per_rewrite_witness:
  "perform_migrations False demo_resource
     \<lparr>items = Some [instance_with ''a'' [route_v1, secret_v1, build_v1],
                    instance_with ''b'' [secret_v1]]\<rparr> start
   = Inr ([instance_with ''a'' [route_new, secret_v1, build_new], instance_with ''b'' [secret_v1]],
          \<lparr>changed = True,
           result = Body ((instance_with ''a'' [route_new, secret_v1, build_new])
                            \<lparr>resourceVersion := ''patched''\<rparr>)\<rparr>,
          \<lparr>cluster = 2,
           patch_calls = [instance_with ''a'' [route_new, secret_v1, build_v1],
                          instance_with ''a'' [route_new, secret_v1, build_new]]\<rparr>)
   \<and> items \<lparr>items = Some [instance_with ''a'' [route_v1, secret_v1, build_v1],
                           instance_with ''b'' [secret_v1]]\<rparr>
     = Some [instance_with ''a'' [route_v1, secret_v1, build_v1], instance_with ''b'' [secret_v1]]
   \<and> concat (map instance_patches
         [instance_with ''a'' [route_v1, secret_v1, build_v1], instance_with ''b'' [secret_v1]])
     = [instance_with ''a'' [route_new, secret_v1, build_v1],
        instance_with ''a'' [route_new, secret_v1, build_new]]"
proof -
  have run: "perform_migrations False demo_resource
     \<lparr>items = Some [instance_with ''a'' [route_v1, secret_v1, build_v1],
                    instance_with ''b'' [secret_v1]]\<rparr> start
   = Inr ([instance_with ''a'' [route_new, secret_v1, build_new], instance_with ''b'' [secret_v1]],
          \<lparr>changed = True,
           result = Body ((instance_with ''a'' [route_new, secret_v1, build_new])
                            \<lparr>resourceVersion := ''patched''\<rparr>)\<rparr>,
          \<lparr>cluster = 2,
           patch_calls = [instance_with ''a'' [route_new, secret_v1, build_v1],
                          instance_with ''a'' [route_new, secret_v1, build_new]]\<rparr>)"
    by (simp add: run_simps)
  have it: "items \<lparr>items = Some [instance_with ''a'' [route_v1, secret_v1, build_v1],
                           instance_with ''b'' [secret_v1]]\<rparr>
     = Some [instance_with ''a'' [route_v1, secret_v1, build_v1], instance_with ''b'' [secret_v1]]"
    by simp
  from one_patch_per_rewrite[OF run it]
  have "patch_calls \<lparr>cluster = 2::nat,
           patch_calls = [instance_with ''a'' [route_new, secret_v1, build_v1],
                          instance_with ''a'' [route_new, secret_v1, build_new]]\<rparr>
        = patch_calls start @ concat (map instance_patches
            [instance_with ''a'' [route_v1, secret_v1, build_v1], instance_with ''b'' [secret_v1]])"
    by blast
  then have "concat (map instance_patches
         [instance_with ''a'' [route_v1, secret_v1, build_v1], instance_with ''b'' [secret_v1]])
     = [instance_with ''a'' [route_new, secret_v1, build_v1],
        instance_with ''a'' [route_new, secret_v1, build_new]]"
    by (simp add: start_def)
  with run it show ?thesis by (simp only: simp_thms)
qed

text \<open>
  C3. In a run that returns, the \<^verbatim>\<open>result\<close> entry is the empty list when the run patched
  nothing, and otherwise the single body the server answered to the last patch of the run
  (the answer that left the cluster in its final state); it is never a list of the
  migrated instances.
\<close>

theorem result_is_last_patch_answer:
  assumes "perform_migrations check_mode resource templateinstances w = Inr (tis', res, w')"
  shows "\<exists>new. patch_calls w' = patch_calls w @ new
           \<and> (new = [] \<longrightarrow> result res = EmptyList)
           \<and> (new \<noteq> [] \<longrightarrow>
                (\<exists>b c. result res = Body b
                   \<and> status_patch resource (last new) c = Inr (b, cluster w')))"
proof -
  from assms obtain tis where
    run: "for_templateinstances check_mode resource tis (\<lparr>changed = False, result = EmptyList\<rparr>, w)
            = Inr (tis', res, w')"
    by (auto simp: perform_migrations_def split: option.splits)
  have "answers_last resource (patch_calls w) (\<lparr>changed = False, result = EmptyList\<rparr>, w)"
    by (simp add: answers_last_def)
  from for_templateinstances_last[OF run this]
  obtain new where n: "patch_calls w' = patch_calls w @ new"
    and c: "case result res of
              EmptyList \<Rightarrow> new = []
            | Body b \<Rightarrow> new \<noteq> [] \<and> (\<exists>c. status_patch resource (last new) c = Inr (b, cluster w'))"
    by (auto simp: answers_last_def)
  show ?thesis
  proof (cases "result res")
    case EmptyList
    with n c show ?thesis by auto
  next
    case (Body b)
    with n c show ?thesis by auto
  qed
qed

theorem result_is_last_patch_answer_witness:
  "perform_migrations False demo_resource
     \<lparr>items = Some [instance_with ''a'' [route_v1], instance_with ''b'' [build_v1]]\<rparr> start
   = Inr ([instance_with ''a'' [route_new], instance_with ''b'' [build_new]],
          \<lparr>changed = True,
           result = Body ((instance_with ''b'' [build_new])\<lparr>resourceVersion := ''patched''\<rparr>)\<rparr>,
          \<lparr>cluster = 2,
           patch_calls = [instance_with ''a'' [route_new], instance_with ''b'' [build_new]]\<rparr>)
   \<and> status_patch demo_resource (instance_with ''b'' [build_new]) 1
     = Inr ((instance_with ''b'' [build_new])\<lparr>resourceVersion := ''patched''\<rparr>, 2)"
proof -
  have run: "perform_migrations False demo_resource
     \<lparr>items = Some [instance_with ''a'' [route_v1], instance_with ''b'' [build_v1]]\<rparr> start
   = Inr ([instance_with ''a'' [route_new], instance_with ''b'' [build_new]],
          \<lparr>changed = True,
           result = Body ((instance_with ''b'' [build_new])\<lparr>resourceVersion := ''patched''\<rparr>)\<rparr>,
          \<lparr>cluster = 2,
           patch_calls = [instance_with ''a'' [route_new], instance_with ''b'' [build_new]]\<rparr>)"
    by (simp add: run_simps)
  have inst: "\<exists>new. patch_calls \<lparr>cluster = 2::nat,
           patch_calls = [instance_with ''a'' [route_new], instance_with ''b'' [build_new]]\<rparr>
         = patch_calls start @ new
       \<and> (new = [] \<longrightarrow> result \<lparr>changed = True,
           result = Body ((instance_with ''b'' [build_new])\<lparr>resourceVersion := ''patched''\<rparr>)\<rparr>
             = EmptyList)
       \<and> (new \<noteq> [] \<longrightarrow> (\<exists>b c. result \<lparr>changed = True,
           result = Body ((instance_with ''b'' [build_new])\<lparr>resourceVersion := ''patched''\<rparr>)\<rparr>
             = Body b
           \<and> status_patch demo_resource (last new) c = Inr (b, cluster \<lparr>cluster = 2::nat,
           patch_calls = [instance_with ''a'' [route_new], instance_with ''b'' [build_new]]\<rparr>)))"
    by (rule result_is_last_patch_answer[OF run])
  have sp: "status_patch demo_resource (instance_with ''b'' [build_new]) 1
     = Inr ((instance_with ''b'' [build_new])\<lparr>resourceVersion := ''patched''\<rparr>, 2)"
    by (simp add: demo_resource_def)
  from inst run sp show ?thesis by blast
qed

text \<open>
  C4 as the specification states it: in check mode the outcome records each mutated
  instance as migrated. The returned dictionary has only \<^verbatim>\<open>changed\<close> and an empty
  \<^verbatim>\<open>result\<close>: a run that changes two instances and a run that changes one of them return
  the same dictionary, which names neither.
\<close>

theorem dry_run_outcome_names_no_instance:
  "perform_migrations True demo_resource
     \<lparr>items = Some [instance_with ''a'' [route_v1, secret_v1, build_v1], instance_with ''b'' [route_v1]]\<rparr>
     start
   = Inr ([instance_with ''a'' [route_new, secret_v1, build_new], instance_with ''b'' [route_new]],
          \<lparr>changed = True, result = EmptyList\<rparr>, start)
   \<and> perform_migrations True demo_resource
     \<lparr>items = Some [instance_with ''b'' [route_v1]]\<rparr> start
   = Inr ([instance_with ''b'' [route_new]], \<lparr>changed = True, result = EmptyList\<rparr>, start)"
  by (simp add: run_simps)

text \<open>
  C4 as the code has it: in check mode no patch is sent and the cluster is untouched
  (the world after the run is the world before it), \<^verbatim>\<open>changed\<close> tells whether some listed
  instance has a stale reference, \<^verbatim>\<open>result\<close> stays the empty list, and the rewrites exist
  only in the instances in memory. Such a run returns whenever the keys it subscripts are
  present, whatever the server would do.
\<close>

theorem dry_run_patches_nothing:
  assumes "items templateinstances = Some tis"
  shows "(list_all readable tis \<longrightarrow>
            (\<exists>out. perform_migrations True resource templateinstances w = Inr out))
       \<and> (\<forall>tis' res w'. perform_migrations True resource templateinstances w = Inr (tis', res, w') \<longrightarrow>
            w' = w \<and> result res = EmptyList
          \<and> changed res = (\<exists>ti \<in> set tis. \<exists>obj \<in> set (instance_objects ti). stale obj)
          \<and> tis' = map transformed tis)"
proof -
  have total: "\<exists>out. perform_migrations True resource templateinstances w = Inr out"
    if "list_all readable tis"
    using for_templateinstances_total[OF that, of True resource] assms
    by (simp add: perform_migrations_def)
  have partial: "w' = w \<and> result res = EmptyList
          \<and> changed res = (\<exists>ti \<in> set tis. \<exists>obj \<in> set (instance_objects ti). stale obj)
          \<and> tis' = map transformed tis"
    if "perform_migrations True resource templateinstances w = Inr (tis', res, w')"
    for tis' res w'
  proof -
    from that assms have run:
      "for_templateinstances True resource tis (\<lparr>changed = False, result = EmptyList\<rparr>, w)
         = Inr (tis', res, w')"
      by (simp add: perform_migrations_def)
    from for_templateinstances_Inr[OF run] show ?thesis by simp
  qed
  from total partial show ?thesis by blast
qed

theorem dry_run_patches_nothing_witness:
  "items \<lparr>items = Some [instance_with ''a'' [route_v1, secret_v1], instance_with ''b'' [secret_v1]]\<rparr>
     = Some [instance_with ''a'' [route_v1, secret_v1], instance_with ''b'' [secret_v1]]
   \<and> list_all readable [instance_with ''a'' [route_v1, secret_v1], instance_with ''b'' [secret_v1]]
   \<and> perform_migrations True demo_resource
        \<lparr>items = Some [instance_with ''a'' [route_v1, secret_v1], instance_with ''b'' [secret_v1]]\<rparr>
        start
      = Inr ([instance_with ''a'' [route_new, secret_v1], instance_with ''b'' [secret_v1]],
             \<lparr>changed = True, result = EmptyList\<rparr>, start)
   \<and> stale route_v1 \<and> \<not> stale secret_v1"
  using dry_run_patches_nothing
    [of "\<lparr>items = Some [instance_with ''a'' [route_v1, secret_v1], instance_with ''b'' [secret_v1]]\<rparr>"
        "[instance_with ''a'' [route_v1, secret_v1], instance_with ''b'' [secret_v1]]"
        demo_resource start]
  by (simp add: run_simps readable_def instance_objects_def keys_present_def stale_def
        canonical_def)

text \<open>
  C5. The transform is idempotent: when the loop over an instance has returned, running
  it again on the instance it left behind (in either mode, against any server, from any
  \<^verbatim>\<open>results\<close>) returns the same instance, sends no patch and leaves \<^verbatim>\<open>changed\<close> as it
  was, so a fresh run reports \<^verbatim>\<open>changed = False\<close> for it.
\<close>

theorem second_pass_changes_nothing:
  assumes "migrate_instance check_mode resource ti (res, w) = Inr (ti', res', w')"
  shows "migrate_instance check_mode2 resource2 ti' (res2, w2) = Inr (ti', res2, w2)"
proof -
  from migrate_instance_Inr[OF assms] have "ti' = transformed ti" by simp
  moreover from migrate_instance_keys[OF assms] have "readable ti" .
  ultimately show ?thesis by (simp only: transformed_fixed)
qed

theorem second_pass_changes_nothing_witness:
  "migrate_instance False demo_resource (instance_with ''a'' [route_v1, secret_v1, build_v1])
     (\<lparr>changed = False, result = EmptyList\<rparr>, start)
   = Inr (instance_with ''a'' [route_new, secret_v1, build_new],
          \<lparr>changed = True,
           result = Body ((instance_with ''a'' [route_new, secret_v1, build_new])
                            \<lparr>resourceVersion := ''patched''\<rparr>)\<rparr>,
          \<lparr>cluster = 2,
           patch_calls = [instance_with ''a'' [route_new, secret_v1, build_v1],
                          instance_with ''a'' [route_new, secret_v1, build_new]]\<rparr>)
   \<and> migrate_instance False demo_resource (instance_with ''a'' [route_new, secret_v1, build_new])
         (\<lparr>changed = False, result = EmptyList\<rparr>, start)
     = Inr (instance_with ''a'' [route_new, secret_v1, build_new],
            \<lparr>changed = False, result = EmptyList\<rparr>, start)"
proof -
  have run: "migrate_instance False demo_resource (instance_with ''a'' [route_v1, secret_v1, build_v1])
     (\<lparr>changed = False, result = EmptyList\<rparr>, start)
   = Inr (instance_with ''a'' [route_new, secret_v1, build_new],
          \<lparr>changed = True,
           result = Body ((instance_with ''a'' [route_new, secret_v1, build_new])
                            \<lparr>resourceVersion := ''patched''\<rparr>)\<rparr>,
          \<lparr>cluster = 2,
           patch_calls = [instance_with ''a'' [route_new, secret_v1, build_v1],
                          instance_with ''a'' [route_new, secret_v1, build_new]]\<rparr>)"
    by (simp add: run_simps)
  from second_pass_changes_nothing[OF run, of False demo_resource
         "\<lparr>changed = False, result = EmptyList\<rparr>" start] run
  show ?thesis by (simp only: simp_thms)
qed

text \<open>
  C6. A pass over an instance changes nothing but the list of references, keeps its
  length and order, and leaves each entry either as it was or with only the apiVersion
  of its reference set to the table's value, the latter only for a kind in the table
  whose apiVersion differed; entries of a kind outside the table, or already at the
  table's value, are the same afterwards.
\<close>

theorem only_stale_apiVersions_change:
  assumes "migrate_instance check_mode resource ti (res, w) = Inr (ti', res', w')"
    and "status ti = Some st" and "objects st = Some objs"
  shows "\<exists>objs'. ti' = ti\<lparr>status := Some (st\<lparr>objects := Some objs'\<rparr>)\<rparr>
           \<and> length objs' = length objs
           \<and> (\<forall>i<length objs. \<exists>r k.
                 ref (objs ! i) = Some r \<and> kind r = Some k
               \<and> (objs' ! i = objs ! i
                  \<or> (\<exists>v. transforms k = Some v \<and> apiVersion r \<noteq> Some v
                        \<and> objs' ! i = (objs ! i)\<lparr>ref := Some (r\<lparr>apiVersion := Some v\<rparr>)\<rparr>))
               \<and> (transforms k = None \<or> transforms k = apiVersion r \<longrightarrow> objs' ! i = objs ! i))"
proof (intro exI[of _ "map rewrite objs"] conjI allI impI)
  from migrate_instance_Inr[OF assms(1)] assms(2,3)
  show "ti' = ti\<lparr>status := Some (st\<lparr>objects := Some (map rewrite objs)\<rparr>)\<rparr>"
    by (simp add: transformed_def with_objects_def)
  show "length (map rewrite objs) = length objs" by simp
next
  fix i assume i: "i < length objs"
  have io: "instance_objects ti = objs" using assms(2,3) by (simp add: instance_objects_def)
  from migrate_instance_keys[OF assms(1)] i have "keys_present (objs ! i)"
    by (simp add: readable_def io list_all_length)
  then obtain r k where r: "ref (objs ! i) = Some r" and k: "kind r = Some k"
    and av: "transforms k \<noteq> None \<longrightarrow> apiVersion r \<noteq> None"
    by (auto simp: keys_present_def split: option.splits)
  have nth: "map rewrite objs ! i = rewrite (objs ! i)" using i by simp
  have a: "rewrite (objs ! i) = objs ! i
         \<or> (\<exists>v. transforms k = Some v \<and> apiVersion r \<noteq> Some v
               \<and> rewrite (objs ! i) = (objs ! i)\<lparr>ref := Some (r\<lparr>apiVersion := Some v\<rparr>)\<rparr>)"
  proof (cases "stale (objs ! i)")
    case False
    then show ?thesis by (simp add: rewrite_def)
  next
    case True
    then obtain r' k' v a where "ref (objs ! i) = Some r'" "kind r' = Some k'"
      "transforms k' = Some v" "apiVersion r' = Some a" "a \<noteq> v"
      by (rule staleE)
    with r k True show ?thesis by (simp add: rewrite_def canonical_def)
  qed
  have b: "transforms k = None \<or> transforms k = apiVersion r \<longrightarrow> rewrite (objs ! i) = objs ! i"
    using r k by (auto simp: rewrite_def stale_def canonical_def split: option.splits)
  show "\<exists>r k.
          ref (objs ! i) = Some r \<and> kind r = Some k
        \<and> (map rewrite objs ! i = objs ! i
           \<or> (\<exists>v. transforms k = Some v \<and> apiVersion r \<noteq> Some v
                 \<and> map rewrite objs ! i = (objs ! i)\<lparr>ref := Some (r\<lparr>apiVersion := Some v\<rparr>)\<rparr>))
        \<and> (transforms k = None \<or> transforms k = apiVersion r \<longrightarrow> map rewrite objs ! i = objs ! i)"
    unfolding nth using r k a b by blast
qed

theorem only_stale_apiVersions_change_witness:
  "migrate_instance True demo_resource (instance_with ''a'' [route_v1, secret_v1, build_new])
     (\<lparr>changed = False, result = EmptyList\<rparr>, start)
   = Inr (instance_with ''a'' [route_new, secret_v1, build_new],
          \<lparr>changed = True, result = EmptyList\<rparr>, start)
   \<and> status (instance_with ''a'' [route_v1, secret_v1, build_new])
     = Some \<lparr>objects = Some [route_v1, secret_v1, build_new], conditions = ''Ready''\<rparr>
   \<and> objects \<lparr>objects = Some [route_v1, secret_v1, build_new], conditions = ''Ready''\<rparr>
     = Some [route_v1, secret_v1, build_new]
   \<and> length [route_new, secret_v1, build_new] = length [route_v1, secret_v1, build_new]"
proof -
  have run: "migrate_instance True demo_resource (instance_with ''a'' [route_v1, secret_v1, build_new])
     (\<lparr>changed = False, result = EmptyList\<rparr>, start)
   = Inr (instance_with ''a'' [route_new, secret_v1, build_new],
          \<lparr>changed = True, result = EmptyList\<rparr>, start)"
    by (simp add: run_simps)
  have st: "status (instance_with ''a'' [route_v1, secret_v1, build_new])
     = Some \<lparr>objects = Some [route_v1, secret_v1, build_new], conditions = ''Ready''\<rparr>"
    by (simp add: instance_with_def)
  have ob: "objects \<lparr>objects = Some [route_v1, secret_v1, build_new], conditions = ''Ready''\<rparr>
     = Some [route_v1, secret_v1, build_new]"
    by simp
  from only_stale_apiVersions_change[OF run st ob] run st ob
  show ?thesis by simp
qed

text \<open>
  C7. In a run that returns, \<^verbatim>\<open>changed\<close> is true exactly when some listed instance has a
  stale reference, which is exactly when the instances in memory after the run differ
  from the listed ones.
\<close>

theorem changed_iff_some_reference_rewritten:
  assumes "perform_migrations check_mode resource templateinstances w = Inr (tis', res, w')"
    and "items templateinstances = Some tis"
  shows "length tis' = length tis
       \<and> (changed res \<longleftrightarrow> tis' \<noteq> tis)
       \<and> (changed res \<longleftrightarrow> (\<exists>ti \<in> set tis. \<exists>obj \<in> set (instance_objects ti). stale obj))"
proof -
  from assms have run:
    "for_templateinstances check_mode resource tis (\<lparr>changed = False, result = EmptyList\<rparr>, w)
       = Inr (tis', res, w')"
    by (simp add: perform_migrations_def)
  from for_templateinstances_Inr[OF run]
  have t: "tis' = map transformed tis"
    and c: "changed res = (\<exists>ti \<in> set tis. \<exists>obj \<in> set (instance_objects ti). stale obj)"
    by simp_all
  have "(tis' \<noteq> tis) = (\<exists>ti \<in> set tis. \<exists>obj \<in> set (instance_objects ti). stale obj)"
    unfolding t by (simp only: map_transformed_id) blast
  with t c show ?thesis by simp
qed

theorem changed_iff_some_reference_rewritten_witness:
  "perform_migrations True demo_resource
     \<lparr>items = Some [instance_with ''a'' [secret_v1, build_new], instance_with ''b'' [secret_v1]]\<rparr>
     start
   = Inr ([instance_with ''a'' [secret_v1, build_new], instance_with ''b'' [secret_v1]],
          \<lparr>changed = False, result = EmptyList\<rparr>, start)
   \<and> perform_migrations True demo_resource
     \<lparr>items = Some [instance_with ''a'' [secret_v1, build_new], instance_with ''b'' [route_v1]]\<rparr>
     start
   = Inr ([instance_with ''a'' [secret_v1, build_new], instance_with ''b'' [route_new]],
          \<lparr>changed = True, result = EmptyList\<rparr>, start)
   \<and> [instance_with ''a'' [secret_v1, build_new], instance_with ''b'' [route_new]]
       \<noteq> [instance_with ''a'' [secret_v1, build_new], instance_with ''b'' [route_v1]]"
proof -
  have run1: "perform_migrations True demo_resource
     \<lparr>items = Some [instance_with ''a'' [secret_v1, build_new], instance_with ''b'' [secret_v1]]\<rparr>
     start
   = Inr ([instance_with ''a'' [secret_v1, build_new], instance_with ''b'' [secret_v1]],
          \<lparr>changed = False, result = EmptyList\<rparr>, start)"
    by (simp add: run_simps)
  have run2: "perform_migrations True demo_resource
     \<lparr>items = Some [instance_with ''a'' [secret_v1, build_new], instance_with ''b'' [route_v1]]\<rparr>
     start
   = Inr ([instance_with ''a'' [secret_v1, build_new], instance_with ''b'' [route_new]],
          \<lparr>changed = True, result = EmptyList\<rparr>, start)"
    by (simp add: run_simps)
  have it: "items \<lparr>items = Some [instance_with ''a'' [secret_v1, build_new], instance_with ''b'' [route_v1]]\<rparr>
      = Some [instance_with ''a'' [secret_v1, build_new], instance_with ''b'' [route_v1]]"
    by simp
  from changed_iff_some_reference_rewritten[OF run2 it]
  have "[instance_with ''a'' [secret_v1, build_new], instance_with ''b'' [route_new]]
       \<noteq> [instance_with ''a'' [secret_v1, build_new], instance_with ''b'' [route_v1]]"
    by simp
  with run1 run2 show ?thesis by (simp only: simp_thms)
qed

text \<open>
  C8. An instance whose \<^verbatim>\<open>status\<close> has no \<^verbatim>\<open>objects\<close> key, or an empty \<^verbatim>\<open>objects\<close> list, is
  passed over: the loop body returns the instance, the \<^verbatim>\<open>results\<close> and the world as they
  were, in either mode, so nothing is patched and the run goes on.
\<close>

theorem no_objects_is_skipped:
  assumes "status ti = Some st" and "objects st = None \<or> objects st = Some []"
  shows "migrate_instance check_mode resource ti (res, w) = Inr (ti, res, w)"
  using assms by (auto simp: migrate_instance_def)

theorem no_objects_is_skipped_witness:
  "status (instance_with ''a'' []) = Some \<lparr>objects = Some [], conditions = ''Ready''\<rparr>
   \<and> objects \<lparr>objects = Some [], conditions = ''Ready''\<rparr> = Some []
   \<and> migrate_instance False demo_resource (instance_with ''a'' [])
        (\<lparr>changed = False, result = EmptyList\<rparr>, start)
      = Inr (instance_with ''a'' [], \<lparr>changed = False, result = EmptyList\<rparr>, start)
   \<and> status ((instance_with ''a'' [])\<lparr>status := Some \<lparr>objects = None, conditions = ''Ready''\<rparr>\<rparr>)
      = Some \<lparr>objects = None, conditions = ''Ready''\<rparr>
   \<and> migrate_instance False demo_resource
        ((instance_with ''a'' [])\<lparr>status := Some \<lparr>objects = None, conditions = ''Ready''\<rparr>\<rparr>)
        (\<lparr>changed = False, result = EmptyList\<rparr>, start)
      = Inr ((instance_with ''a'' [])\<lparr>status := Some \<lparr>objects = None, conditions = ''Ready''\<rparr>\<rparr>,
             \<lparr>changed = False, result = EmptyList\<rparr>, start)"
  using no_objects_is_skipped
    [of "instance_with ''a'' []" "\<lparr>objects = Some [], conditions = ''Ready''\<rparr>"
        False demo_resource "\<lparr>changed = False, result = EmptyList\<rparr>" start]
    no_objects_is_skipped
    [of "(instance_with ''a'' [])\<lparr>status := Some \<lparr>objects = None, conditions = ''Ready''\<rparr>\<rparr>"
        "\<lparr>objects = None, conditions = ''Ready''\<rparr>"
        False demo_resource "\<lparr>changed = False, result = EmptyList\<rparr>" start]
  by (simp add: instance_with_def)

text \<open>
  C9. A failing list call is turned into \<^verbatim>\<open>fail_json\<close> with the HTTP status and reason only
  when a namespace is given. Without a namespace the call is outside the \<^verbatim>\<open>try\<close> and the
  client's exception leaves the module as it is: against a server that answers every
  list call with 403, the unscoped run ends in the raw exception and the scoped run in
  the documented failure.
\<close>

theorem unscoped_list_failure_is_not_caught:
  "execute_module (\<lambda>nm ver. Inr demo_resource) False None start
     = Inl (Uncaught (DynamicApiError 403 ''Forbidden'' ''denied'' ''403 Forbidden''))
   \<and> execute_module (\<lambda>nm ver. Inr demo_resource) False (Some ''test'') start
     = Inl (FailJson (retrieve_msg ''test'' ''denied'')
              [(''error'', PyInt 403), (''status'', PyInt 403), (''reason'', PyStr ''Forbidden'')])"
  by (simp add: execute_module_def demo_resource_def start_def)

text \<open>
  C10. The table has exactly the four keys Build, BuildConfig, DeploymentConfig and
  Route, each mapped to its \<^verbatim>\<open>group/version.Kind\<close> string, and in every run that returns a
  reference of any other kind is the same afterwards.
\<close>

theorem other_kinds_never_rewritten:
  "dom transforms = {''Build'', ''BuildConfig'', ''DeploymentConfig'', ''Route''}
   \<and> transforms ''Build'' = Some ''build.openshift.io/v1.Build''
   \<and> transforms ''BuildConfig'' = Some ''build.openshift.io/v1.BuildConfig''
   \<and> transforms ''DeploymentConfig'' = Some ''apps.openshift.io/v1.DeploymentConfig''
   \<and> transforms ''Route'' = Some ''route.openshift.io/v1.Route''
   \<and> (perform_migrations check_mode resource templateinstances w = Inr (tis', res, w')
        \<and> items templateinstances = Some tis \<and> n < length tis
        \<and> status (tis ! n) = Some st \<and> objects st = Some objs \<and> i < length objs
        \<and> ref (objs ! i) = Some r \<and> kind r = Some k
        \<and> k \<notin> {''Build'', ''BuildConfig'', ''DeploymentConfig'', ''Route''}
      \<longrightarrow> (\<exists>st' objs'. status (tis' ! n) = Some st' \<and> objects st' = Some objs'
             \<and> objs' ! i = objs ! i))"
proof -
  have tab: "transforms ''Build'' = Some ''build.openshift.io/v1.Build''
   \<and> transforms ''BuildConfig'' = Some ''build.openshift.io/v1.BuildConfig''
   \<and> transforms ''DeploymentConfig'' = Some ''apps.openshift.io/v1.DeploymentConfig''
   \<and> transforms ''Route'' = Some ''route.openshift.io/v1.Route''"
    by (simp add: transforms_def)
  have run: "\<exists>st' objs'. status (tis' ! n) = Some st' \<and> objects st' = Some objs'
             \<and> objs' ! i = objs ! i"
    if p: "perform_migrations check_mode resource templateinstances w = Inr (tis', res, w')"
      and it: "items templateinstances = Some tis" and n: "n < length tis"
      and st: "status (tis ! n) = Some st" and ob: "objects st = Some objs"
      and i: "i < length objs" and r: "ref (objs ! i) = Some r" and k: "kind r = Some k"
      and nk: "k \<notin> {''Build'', ''BuildConfig'', ''DeploymentConfig'', ''Route''}"
  proof -
    from p it have
      "for_templateinstances check_mode resource tis (\<lparr>changed = False, result = EmptyList\<rparr>, w)
         = Inr (tis', res, w')"
      by (simp add: perform_migrations_def)
    from for_templateinstances_Inr[OF this] have "tis' = map transformed tis" by simp
    with n have "tis' ! n = transformed (tis ! n)" by simp
    with st ob have t: "tis' ! n = with_objects (tis ! n) st (map rewrite objs)"
      by (simp add: transformed_def)
    from nk have "transforms k = None"
      using dom_transforms by (metis domIff)
    with r k have "\<not> stale (objs ! i)" by (simp add: stale_def canonical_def)
    then have "rewrite (objs ! i) = objs ! i" by (simp add: rewrite_def)
    with i have "map rewrite objs ! i = objs ! i" by simp
    moreover have "status (tis' ! n) = Some (st\<lparr>objects := Some (map rewrite objs)\<rparr>)"
      by (simp add: t with_objects_def)
    moreover have "objects (st\<lparr>objects := Some (map rewrite objs)\<rparr>) = Some (map rewrite objs)"
      by simp
    ultimately show ?thesis by blast
  qed
  from dom_transforms tab run show ?thesis by blast
qed

theorem other_kinds_never_rewritten_witness:
  "perform_migrations False demo_resource
     \<lparr>items = Some [instance_with ''a'' [route_v1, secret_v1]]\<rparr> start
   = Inr ([instance_with ''a'' [route_new, secret_v1]],
          \<lparr>changed = True,
           result = Body ((instance_with ''a'' [route_new, secret_v1])\<lparr>resourceVersion := ''patched''\<rparr>)\<rparr>,
          \<lparr>cluster = 1, patch_calls = [instance_with ''a'' [route_new, secret_v1]]\<rparr>)
   \<and> kind \<lparr>kind = Some ''Secret'', apiVersion = Some ''v1'', name = ''secret'',
             namespace = ''test'', uid = ''cadf2582''\<rparr> = Some ''Secret''
   \<and> ''Secret'' \<notin> {''Build'', ''BuildConfig'', ''DeploymentConfig'', ''Route''}
   \<and> [route_new, secret_v1] ! 1 = [route_v1, secret_v1] ! 1
   \<and> transforms ''Secret'' = None"
  using other_kinds_never_rewritten
    [of False demo_resource "\<lparr>items = Some [instance_with ''a'' [route_v1, secret_v1]]\<rparr>" start
        "[instance_with ''a'' [route_new, secret_v1]]"
        "\<lparr>changed = True,
           result = Body ((instance_with ''a'' [route_new, secret_v1])\<lparr>resourceVersion := ''patched''\<rparr>)\<rparr>"
        "\<lparr>cluster = 1, patch_calls = [instance_with ''a'' [route_new, secret_v1]]\<rparr>"
        "[instance_with ''a'' [route_v1, secret_v1]]" 0
        "\<lparr>objects = Some [route_v1, secret_v1], conditions = ''Ready''\<rparr>"
        "[route_v1, secret_v1]" 1
        "\<lparr>kind = Some ''Secret'', apiVersion = Some ''v1'', name = ''secret'',
             namespace = ''test'', uid = ''cadf2582''\<rparr>" "''Secret''"]
  by (simp add: run_simps)

end
